theory Spec2Isabelle
  imports Complex_Main
begin

section \<open>Values exchanged with the language server\<close>

text \<open>
  The embedding follows \<^verbatim>\<open>src/lib/adapters/document-sync-adapter.js\<close>. A JavaScript
  string is a list of code units and \<^verbatim>\<open>.length\<close> is the length of that list. The
  version counter is a JavaScript number that starts at 1 and is only ever incremented;
  it is a natural number here (a double is exact on integers far beyond any number of
  change events a session can see).
\<close>

text \<open>An Atom \<^verbatim>\<open>Point\<close> and \<^verbatim>\<open>Range\<close>.\<close>

record Point =
  row :: nat
  column :: nat

record AtomRange =
  range_start :: Point
  range_end :: Point

text \<open>A protocol \<^verbatim>\<open>Position\<close> and \<^verbatim>\<open>Range\<close>.\<close>

record Position =
  line :: nat
  character :: nat

record LSRange =
  ls_start :: Position
  ls_end :: Position

text \<open>One entry of \<^verbatim>\<open>event.changes\<close> of the buffer's \<^verbatim>\<open>onDidChangeText\<close> event.\<close>

record TextEditEvent =
  oldRange :: AtomRange
  newRange :: AtomRange
  oldText :: string
  newText :: string

text \<open>
  \<^verbatim>\<open>TextDocumentContentChangeEvent\<close>: \<^verbatim>\<open>range\<close> and \<^verbatim>\<open>rangeLength\<close> are optional
  properties; \<open>None\<close> is a property the object literal does not have.
\<close>

record TextDocumentContentChangeEvent =
  cc_range :: "LSRange option"
  cc_rangeLength :: "nat option"
  cc_text :: string

record VersionedTextDocumentIdentifier =
  vt_uri :: string
  vt_version :: nat

record TextDocumentItem =
  td_uri :: string
  td_languageId :: string
  td_version :: nat
  td_text :: string

datatype FileChangeType = Created | Changed | Deleted

record FileEvent =
  fe_uri :: string
  fe_type :: FileChangeType

text \<open>
  The connection is a sink: each call of one of its methods is one notification, and
  a handler returns the list of notifications it sent, in the order of the calls.
\<close>

datatype notification =
    DidOpenTextDocument TextDocumentItem
  | DidChangeTextDocument VersionedTextDocumentIdentifier "TextDocumentContentChangeEvent list"
  | DidSaveTextDocument string
  | DidChangeWatchedFiles "FileEvent list"
  | DidCloseTextDocument string

fun is_change :: "notification \<Rightarrow> bool" where
  "is_change (DidChangeTextDocument _ _) = True"
| "is_change _ = False"

fun is_close :: "notification \<Rightarrow> bool" where
  "is_close (DidCloseTextDocument _) = True"
| "is_close _ = False"

fun is_open :: "notification \<Rightarrow> bool" where
  "is_open (DidOpenTextDocument _) = True"
| "is_open _ = False"

section \<open>Collaborators outside the file\<close>

text \<open>
  \<^verbatim>\<open>Convert.pathToUri\<close> and \<^verbatim>\<open>Convert.atomRangeToLSRange\<close> come from \<^verbatim>\<open>../convert\<close>
  and \<^verbatim>\<open>String.prototype.toLowerCase\<close> from the language; none of them is in the
  file, so the handlers take them as parameters.
\<close>

record externals =
  pathToUri :: "string \<Rightarrow> string"
  atomRangeToLSRange :: "AtomRange \<Rightarrow> LSRange"
  toLowerCase :: "string \<Rightarrow> string"

text \<open>
  What a handler reads from the \<^verbatim>\<open>TextEditor\<close> when it runs. \<open>ident\<close> is the
  identity of the editor object (the key of the \<^verbatim>\<open>WeakMap\<close>); \<open>getURI\<close> and
  \<open>getPath\<close> are \<open>None\<close> when the method returns \<^verbatim>\<open>null\<close> or \<^verbatim>\<open>undefined\<close>;
  \<open>grammarName\<close> is \<^verbatim>\<open>getGrammar().name\<close>.
\<close>

record TextEditor =
  ident :: nat
  getURI :: "string option"
  getPath :: "string option"
  getText :: string
  grammarName :: string

section \<open>The capability check\<close>

text \<open>
  \<^verbatim>\<open>canAdapt\<close> compares \<^verbatim>\<open>serverCapabilities.textDocumentSync\<close> with
  \<^verbatim>\<open>===\<close> against Incremental and with \<^verbatim>\<open>==\<close> against Full. The two operators
  agree on numbers and differ on other values, so the property is a JavaScript value
  as a decoded message of the server can hold it: \<^verbatim>\<open>undefined\<close> for a property that
  is not there, \<^verbatim>\<open>null\<close>, a boolean, a number, a string, an array, or an object with
  its own properties in order.
\<close>

text \<open>A JavaScript number: a finite one (the two zeros are one), an infinity, or NaN.\<close>

datatype jsnumber = Finite real | PosInfinity | NegInfinity | NaN

datatype jsvalue =
    JUndefined
  | JNull
  | JBoolean bool
  | JNumber jsnumber
  | JString string
  | JArray "jsvalue list"
  | JObject "(string \<times> jsvalue) list"

datatype js_error = TypeError

text \<open>
  The two conversions of the language between strings and numbers (\<^verbatim>\<open>StringToNumber\<close>
  and \<^verbatim>\<open>Number::toString\<close>) are parameters: they are not part of the file.
\<close>

record language =
  stringToNumber :: "string \<Rightarrow> jsnumber"
  numberToString :: "jsnumber \<Rightarrow> string"

text \<open>\<^verbatim>\<open>Array.prototype.join\<close> with the separator \<^verbatim>\<open>','\<close>.\<close>

fun join_strings :: "string list \<Rightarrow> string" where
  "join_strings [] = []"
| "join_strings [s] = s"
| "join_strings (s # t # rest) = s @ '','' @ join_strings (t # rest)"

text \<open>The strings of the elements in order, or the first exception one of them throws.\<close>

fun collect :: "(js_error + string) list \<Rightarrow> js_error + string list" where
  "collect [] = Inr []"
| "collect (Inl e # rest) = Inl e"
| "collect (Inr s # rest) =
     (case collect rest of Inl e \<Rightarrow> Inl e | Inr ss \<Rightarrow> Inr (s # ss))"

text \<open>
  \<^verbatim>\<open>ToString\<close>, which is also what \<^verbatim>\<open>ToPrimitive\<close> gives for an array or an object
  of a decoded message. An array is joined: an element that is \<^verbatim>\<open>undefined\<close> or
  \<^verbatim>\<open>null\<close> gives the empty string, any other its own \<^verbatim>\<open>ToString\<close>. An object has
  \<^verbatim>\<open>Object.prototype\<close> as prototype, whose \<^verbatim>\<open>valueOf\<close> returns the object itself and
  whose \<^verbatim>\<open>toString\<close> returns \<^verbatim>\<open>'[object Object]'\<close>; an own property named
  \<^verbatim>\<open>toString\<close> hides the latter and is not callable, and then no method is left and
  the conversion throws a \<^verbatim>\<open>TypeError\<close>.
\<close>

fun toString :: "language \<Rightarrow> jsvalue \<Rightarrow> js_error + string" where
  "toString l JUndefined = Inr ''undefined''"
| "toString l JNull = Inr ''null''"
| "toString l (JBoolean b) = Inr (if b then ''true'' else ''false'')"
| "toString l (JNumber x) = Inr (numberToString l x)"
| "toString l (JString s) = Inr s"
| "toString l (JArray elements) =
     (case collect (map (\<lambda>e. if e = JUndefined \<or> e = JNull then Inr [] else toString l e)
                      elements) of
        Inl err \<Rightarrow> Inl err
      | Inr ss \<Rightarrow> Inr (join_strings ss))"
| "toString l (JObject properties) =
     (if ''toString'' \<in> set (map fst properties) then Inl TypeError
      else Inr ''[object Object]'')"

text \<open>\<^verbatim>\<open>v === n\<close> for a number \<open>n\<close>: the same type and the same number.\<close>

fun strict_equals :: "jsvalue \<Rightarrow> real \<Rightarrow> bool" where
  "strict_equals (JNumber x) n = (x = Finite n)"
| "strict_equals _ n = False"

text \<open>
  \<^verbatim>\<open>v == n\<close> for a number \<open>n\<close>: \<^verbatim>\<open>undefined\<close> and \<^verbatim>\<open>null\<close> equal no number; a
  boolean is converted to a number first (\<^verbatim>\<open>true\<close> to 1, \<^verbatim>\<open>false\<close> to 0), and so
  is a string; an array or an object is converted to its primitive, a string, which is
  then converted to a number.
\<close>

fun loose_equals :: "language \<Rightarrow> jsvalue \<Rightarrow> real \<Rightarrow> js_error + bool" where
  "loose_equals l JUndefined n = Inr False"
| "loose_equals l JNull n = Inr False"
| "loose_equals l (JBoolean b) n = Inr (Finite (if b then 1 else 0) = Finite n)"
| "loose_equals l (JNumber x) n = Inr (x = Finite n)"
| "loose_equals l (JString s) n = Inr (stringToNumber l s = Finite n)"
| "loose_equals l (JArray elements) n =
     (case toString l (JArray elements) of
        Inl err \<Rightarrow> Inl err
      | Inr p \<Rightarrow> Inr (stringToNumber l p = Finite n))"
| "loose_equals l (JObject properties) n =
     (case toString l (JObject properties) of
        Inl err \<Rightarrow> Inl err
      | Inr p \<Rightarrow> Inr (stringToNumber l p = Finite n))"

text \<open>
  Modelled from the spec: the constants of \<^verbatim>\<open>TextDocumentSyncKind\<close> are declared in
  \<^verbatim>\<open>../languageclient\<close>, which is not among the sources. The spec names the three
  values None, Full and Incremental; the constructor's comment in the source gives
  Full (1) and Incremental (2), and None is the protocol's 0.
\<close>

definition TextDocumentSyncKind_None :: real where
  "TextDocumentSyncKind_None = 0"

definition TextDocumentSyncKind_Full :: real where
  "TextDocumentSyncKind_Full = 1"

definition TextDocumentSyncKind_Incremental :: real where
  "TextDocumentSyncKind_Incremental = 2"

record ServerCapabilities =
  textDocumentSync :: jsvalue

text \<open>\<^verbatim>\<open>||\<close> evaluates its right operand only when the left one is false.\<close>

definition canAdapt :: "language \<Rightarrow> ServerCapabilities \<Rightarrow> js_error + bool" where
  "canAdapt l serverCapabilities =
     (if strict_equals (textDocumentSync serverCapabilities) TextDocumentSyncKind_Incremental
      then Inr True
      else loose_equals l (textDocumentSync serverCapabilities) TextDocumentSyncKind_Full)"

section \<open>TextEditorSyncAdapter: one session per editor\<close>

text \<open>
  The subscriptions a session can hold in its \<^verbatim>\<open>CompositeDisposable\<close>, each named
  after the event it listens to; the handler bound to it is fixed by the source:
  \<^verbatim>\<open>editor.onDidChange\<close> runs \<^verbatim>\<open>sendFullChanges\<close>,
  \<^verbatim>\<open>buffer.onDidChangeText\<close> runs \<^verbatim>\<open>sendIncrementalChanges\<close>,
  \<^verbatim>\<open>editor.onDidSave\<close> runs \<^verbatim>\<open>didSave\<close> and
  \<^verbatim>\<open>editor.onDidDestroy\<close> runs \<^verbatim>\<open>didDestroy\<close>.
\<close>

datatype subscription = OnDidChange | OnDidChangeText | OnDidSave | OnDidDestroy

text \<open>
  The fields of the class: \<open>editor_ref\<close> is the identity of \<^verbatim>\<open>_editor\<close>,
  \<open>version\<close> is \<^verbatim>\<open>_version\<close>, and \<open>disposables\<close> with \<open>disposed\<close> are the
  \<^verbatim>\<open>CompositeDisposable\<close> \<^verbatim>\<open>_disposable\<close>. The connection is the sink above.
\<close>

record TextEditorSyncAdapter =
  editor_ref :: nat
  version :: nat
  disposables :: "subscription list"
  disposed :: bool

definition setupChangeTracking :: "real \<Rightarrow> subscription option" where
  "setupChangeTracking documentSyncKind =
     (if documentSyncKind = TextDocumentSyncKind_Full then Some OnDidChange
      else if documentSyncKind = TextDocumentSyncKind_Incremental then Some OnDidChangeText
      else None)"

text \<open>\<^verbatim>\<open>Convert.pathToUri(this._editor.getPath() || '')\<close>: an absent path, and the
  empty one, become the empty string.\<close>

definition getEditorUri :: "externals \<Rightarrow> TextEditor \<Rightarrow> string" where
  "getEditorUri ext editor =
     pathToUri ext (case getPath editor of None \<Rightarrow> [] | Some p \<Rightarrow> if p = [] then [] else p)"

definition getLanguageId :: "TextEditor \<Rightarrow> string" where
  "getLanguageId editor = grammarName editor"

definition getVersionedTextDocumentIdentifier ::
  "externals \<Rightarrow> TextEditor \<Rightarrow> TextEditorSyncAdapter \<Rightarrow> VersionedTextDocumentIdentifier" where
  "getVersionedTextDocumentIdentifier ext editor s =
     \<lparr>vt_uri = getEditorUri ext editor, vt_version = version s\<rparr>"

definition didOpen :: "externals \<Rightarrow> TextEditor \<Rightarrow> TextEditorSyncAdapter \<Rightarrow> notification list" where
  "didOpen ext editor s =
     (if getURI editor = None then []
      else [DidOpenTextDocument
              \<lparr>td_uri = getEditorUri ext editor,
               td_languageId = toLowerCase ext (getLanguageId editor),
               td_version = version s,
               td_text = getText editor\<rparr>])"

definition sendFullChanges ::
  "externals \<Rightarrow> TextEditor \<Rightarrow> TextEditorSyncAdapter \<Rightarrow> TextEditorSyncAdapter \<times> notification list" where
  "sendFullChanges ext editor s =
     (let s' = s\<lparr>version := version s + 1\<rparr>
      in (s', [DidChangeTextDocument (getVersionedTextDocumentIdentifier ext editor s')
                 [\<lparr>cc_range = None, cc_rangeLength = None, cc_text = getText editor\<rparr>]]))"

definition textEditToContentChange :: "externals \<Rightarrow> TextEditEvent \<Rightarrow> TextDocumentContentChangeEvent" where
  "textEditToContentChange ext change =
     \<lparr>cc_range = Some (atomRangeToLSRange ext (oldRange change)),
      cc_rangeLength = Some (length (oldText change)),
      cc_text = newText change\<rparr>"

definition sendIncrementalChanges ::
  "externals \<Rightarrow> TextEditor \<Rightarrow> TextEditorSyncAdapter \<Rightarrow> TextEditEvent list
     \<Rightarrow> TextEditorSyncAdapter \<times> notification list" where
  "sendIncrementalChanges ext editor s changes =
     (if length changes > 0 then
        (let s' = s\<lparr>version := version s + 1\<rparr>
         in (s', [DidChangeTextDocument (getVersionedTextDocumentIdentifier ext editor s')
                    (map (textEditToContentChange ext) changes)]))
      else (s, []))"

definition didDestroy :: "externals \<Rightarrow> TextEditor \<Rightarrow> notification list" where
  "didDestroy ext editor =
     (if getURI editor = None then []
      else [DidCloseTextDocument (getEditorUri ext editor)])"

definition didSave :: "externals \<Rightarrow> TextEditor \<Rightarrow> notification list" where
  "didSave ext editor =
     [DidSaveTextDocument (getEditorUri ext editor),
      DidChangeWatchedFiles [\<lparr>fe_uri = getEditorUri ext editor, fe_type = Changed\<rparr>]]"

text \<open>
  \<^verbatim>\<open>dispose\<close> disposes the composite: the first call disposes every member and
  empties it, a later call finds it disposed and does nothing. It calls no method of
  the connection.
\<close>

definition dispose :: "TextEditorSyncAdapter \<Rightarrow> TextEditorSyncAdapter" where
  "dispose s = (if disposed s then s else s\<lparr>disposables := [], disposed := True\<rparr>)"

text \<open>
  The constructor: the change subscription when \<^verbatim>\<open>setupChangeTracking\<close> returns
  one, then the save and destroy subscriptions, then \<^verbatim>\<open>didOpen\<close>. It returns the new
  session and what \<^verbatim>\<open>didOpen\<close> sent.
\<close>

definition new_TextEditorSyncAdapter ::
  "externals \<Rightarrow> TextEditor \<Rightarrow> real \<Rightarrow> TextEditorSyncAdapter \<times> notification list" where
  "new_TextEditorSyncAdapter ext editor documentSyncKind =
     (let changeTracking = setupChangeTracking documentSyncKind;
          d = (case changeTracking of None \<Rightarrow> [] | Some c \<Rightarrow> [c]);
          s = \<lparr>editor_ref = ident editor, version = 1,
               disposables = d @ [OnDidSave, OnDidDestroy], disposed = False\<rparr>
      in (s, didOpen ext editor s))"

subsection \<open>Events of the editor, as the session sees them\<close>

text \<open>
  The host calls a handler while its subscription is a member of the composite; once
  disposed, the subscription calls nothing. \<open>EditorDidChange\<close> is the editor's
  \<^verbatim>\<open>onDidChange\<close> (its handler takes no argument), \<open>BufferDidChangeText\<close> is the
  buffer's \<^verbatim>\<open>onDidChangeText\<close> with \<^verbatim>\<open>event.changes\<close>. Every event comes with the
  state of the editor at that moment.
\<close>

datatype event =
    EditorDidChange
  | BufferDidChangeText "TextEditEvent list"
  | EditorDidSave
  | EditorDidDestroy

fun deliver ::
  "externals \<Rightarrow> TextEditor \<Rightarrow> TextEditorSyncAdapter \<Rightarrow> event \<Rightarrow> TextEditorSyncAdapter \<times> notification list" where
  "deliver ext editor s EditorDidChange =
     (if OnDidChange \<in> set (disposables s) then sendFullChanges ext editor s else (s, []))"
| "deliver ext editor s (BufferDidChangeText changes) =
     (if OnDidChangeText \<in> set (disposables s) then sendIncrementalChanges ext editor s changes
      else (s, []))"
| "deliver ext editor s EditorDidSave =
     (if OnDidSave \<in> set (disposables s) then (s, didSave ext editor) else (s, []))"
| "deliver ext editor s EditorDidDestroy =
     (if OnDidDestroy \<in> set (disposables s) then (s, didDestroy ext editor) else (s, []))"

text \<open>What can happen to a session: the host delivers an event, or someone calls
  \<^verbatim>\<open>dispose\<close>.\<close>

datatype action = Event event | Dispose

fun step ::
  "externals \<Rightarrow> TextEditor \<Rightarrow> TextEditorSyncAdapter \<Rightarrow> action \<Rightarrow> TextEditorSyncAdapter \<times> notification list" where
  "step ext editor s (Event ev) = deliver ext editor s ev"
| "step ext editor s Dispose = (dispose s, [])"

text \<open>A history: each action with the editor's state when it happens.\<close>

fun run ::
  "externals \<Rightarrow> TextEditorSyncAdapter \<Rightarrow> (TextEditor \<times> action) list
     \<Rightarrow> TextEditorSyncAdapter \<times> notification list" where
  "run ext s [] = (s, [])"
| "run ext s ((editor, a) # rest) =
     (let (s', out) = step ext editor s a;
          (s'', out') = run ext s' rest
      in (s'', out @ out'))"

section \<open>DocumentSyncAdapter: the registry of sessions\<close>

text \<open>
  Sessions are objects shared by the \<^verbatim>\<open>WeakMap\<close>, the composite and the closure of
  the teardown callback, so they live in a store: \<open>sessions\<close> lists every session
  ever constructed and the address of a session is its index (a new one is appended).
\<close>

text \<open>
  The members of the adapter's composite: the subscription to
  \<^verbatim>\<open>atom.textEditors.observe\<close>, a session (by address), and the subscription of the
  teardown callback to an editor's \<^verbatim>\<open>onDidDestroy\<close> (editor identity, address of the
  session the closure captured).
\<close>

datatype disposable = ObserveSubscription | Sync nat | DestroySubscription nat nat

text \<open>
  What is registered with an editor's emitters, in the order of registration: the
  handlers of a session (all registered by its constructor; \<^const>\<open>deliver\<close> picks the
  one for the event and checks that its subscription is alive), and the teardown
  callback of \<^verbatim>\<open>observeTextEditor\<close>, which listens to the destroy event only.
\<close>

datatype handler = SessionHandlers nat | Teardown nat

text \<open>
  The fields of the class, with the store and the host's registrations:
  \<open>editors\<close> is the \<^verbatim>\<open>WeakMap\<close> \<^verbatim>\<open>_editors\<close>, from the identity of an editor to the
  address of its session; \<open>adapter_disposables\<close> and \<open>adapter_disposed\<close> are the
  \<^verbatim>\<open>CompositeDisposable\<close> \<^verbatim>\<open>_disposable\<close>.
\<close>

record DocumentSyncAdapter =
  editorSelector :: "TextEditor \<Rightarrow> bool"
  documentSyncKind :: real
  editors :: "nat \<rightharpoonup> nat"
  adapter_disposables :: "disposable list"
  adapter_disposed :: bool
  sessions :: "TextEditorSyncAdapter list"
  handlers :: "(nat \<times> handler) list"

text \<open>\<^verbatim>\<open>CompositeDisposable.add\<close> and \<^verbatim>\<open>remove\<close> do nothing once the composite is
  disposed.\<close>

definition add_disposable :: "DocumentSyncAdapter \<Rightarrow> disposable \<Rightarrow> DocumentSyncAdapter" where
  "add_disposable w d =
     (if adapter_disposed w then w
      else w\<lparr>adapter_disposables := adapter_disposables w @ [d]\<rparr>)"

definition remove_disposable :: "DocumentSyncAdapter \<Rightarrow> disposable \<Rightarrow> DocumentSyncAdapter" where
  "remove_disposable w d =
     (if adapter_disposed w then w
      else w\<lparr>adapter_disposables := removeAll d (adapter_disposables w)\<rparr>)"

text \<open>\<^verbatim>\<open>sync.dispose()\<close> on the session at an address.\<close>

definition dispose_session :: "DocumentSyncAdapter \<Rightarrow> nat \<Rightarrow> DocumentSyncAdapter" where
  "dispose_session w a =
     (if a < length (sessions w) then w\<lparr>sessions := (sessions w)[a := dispose (sessions w ! a)]\<rparr>
      else w)"

text \<open>
  \<^verbatim>\<open>observeTextEditor\<close>. The constructor of the session registers its handlers with
  the editor; afterwards the session is stored in the map and added to the composite,
  and the teardown callback is registered with the editor and its subscription added
  to the composite.
\<close>

definition observeTextEditor ::
  "externals \<Rightarrow> DocumentSyncAdapter \<Rightarrow> TextEditor \<Rightarrow> DocumentSyncAdapter \<times> notification list" where
  "observeTextEditor ext w editor =
     (if editors w (ident editor) = None \<and> editorSelector w editor then
        (let (sync, out) = new_TextEditorSyncAdapter ext editor (documentSyncKind w);
             a = length (sessions w);
             w1 = w\<lparr>sessions := sessions w @ [sync],
                    handlers := handlers w @ [(ident editor, SessionHandlers a)]\<rparr>;
             w2 = w1\<lparr>editors := (editors w1)(ident editor \<mapsto> a)\<rparr>;
             w3 = add_disposable w2 (Sync a);
             w4 = w3\<lparr>handlers := handlers w3 @ [(ident editor, Teardown a)]\<rparr>;
             w5 = add_disposable w4 (DestroySubscription (ident editor) a)
         in (w5, out))
      else (w, []))"

text \<open>The body of the teardown callback, for the editor and the session it captured.\<close>

definition teardown :: "DocumentSyncAdapter \<Rightarrow> nat \<Rightarrow> nat \<Rightarrow> DocumentSyncAdapter" where
  "teardown w i a =
     (let w1 = w\<lparr>editors := (editors w)(i := None)\<rparr>;
          w2 = remove_disposable w1 (Sync a)
      in dispose_session w2 a)"

text \<open>
  An event of an editor reaches what is registered with that editor, in the order of
  registration, as the emitter found it when the event started.
\<close>

definition run_handler ::
  "externals \<Rightarrow> TextEditor \<Rightarrow> event \<Rightarrow> DocumentSyncAdapter \<Rightarrow> handler
     \<Rightarrow> DocumentSyncAdapter \<times> notification list" where
  "run_handler ext editor ev w h =
     (case h of
        SessionHandlers a \<Rightarrow>
          (if a < length (sessions w) then
             (let (s', out) = deliver ext editor (sessions w ! a) ev
              in (w\<lparr>sessions := (sessions w)[a := s']\<rparr>, out))
           else (w, []))
      | Teardown a \<Rightarrow>
          (if ev = EditorDidDestroy then (teardown w (ident editor) a, []) else (w, [])))"

fun run_handlers ::
  "externals \<Rightarrow> TextEditor \<Rightarrow> event \<Rightarrow> DocumentSyncAdapter \<Rightarrow> handler list
     \<Rightarrow> DocumentSyncAdapter \<times> notification list" where
  "run_handlers ext editor ev w [] = (w, [])"
| "run_handlers ext editor ev w (h # hs) =
     (let (w', out) = run_handler ext editor ev w h;
          (w'', out') = run_handlers ext editor ev w' hs
      in (w'', out @ out'))"

definition registered :: "DocumentSyncAdapter \<Rightarrow> nat \<Rightarrow> handler list" where
  "registered w i = map snd (filter (\<lambda>r. fst r = i) (handlers w))"

definition editorEvent ::
  "externals \<Rightarrow> TextEditor \<Rightarrow> event \<Rightarrow> DocumentSyncAdapter \<Rightarrow> DocumentSyncAdapter \<times> notification list" where
  "editorEvent ext editor ev w = run_handlers ext editor ev w (registered w (ident editor))"

text \<open>
  \<^verbatim>\<open>dispose\<close> of the adapter disposes the composite: every member is disposed (a
  session is disposed, the subscription of a teardown callback takes the callback off
  the editor) and the composite is emptied. The map is not touched.
\<close>

fun dispose_member :: "disposable \<Rightarrow> DocumentSyncAdapter \<Rightarrow> DocumentSyncAdapter" where
  "dispose_member ObserveSubscription w = w"
| "dispose_member (Sync a) w = dispose_session w a"
| "dispose_member (DestroySubscription i a) w =
     w\<lparr>handlers := removeAll (i, Teardown a) (handlers w)\<rparr>"

definition adapter_dispose :: "DocumentSyncAdapter \<Rightarrow> DocumentSyncAdapter" where
  "adapter_dispose w =
     (if adapter_disposed w then w
      else (fold dispose_member (adapter_disposables w) (w\<lparr>adapter_disposed := True\<rparr>))
             \<lparr>adapter_disposables := []\<rparr>)"

text \<open>
  The constructor: \<^verbatim>\<open>atom.textEditors.observe\<close> calls \<^verbatim>\<open>observeTextEditor\<close> for
  every editor that is open already, and its subscription is then added to the
  composite.
\<close>

fun observeAll ::
  "externals \<Rightarrow> DocumentSyncAdapter \<Rightarrow> TextEditor list \<Rightarrow> DocumentSyncAdapter \<times> notification list" where
  "observeAll ext w [] = (w, [])"
| "observeAll ext w (editor # rest) =
     (let (w', out) = observeTextEditor ext w editor;
          (w'', out') = observeAll ext w' rest
      in (w'', out @ out'))"

definition new_DocumentSyncAdapter ::
  "externals \<Rightarrow> real \<Rightarrow> (TextEditor \<Rightarrow> bool) \<Rightarrow> TextEditor list
     \<Rightarrow> DocumentSyncAdapter \<times> notification list" where
  "new_DocumentSyncAdapter ext kind selector open_editors =
     (let w0 = \<lparr>editorSelector = selector, documentSyncKind = kind, editors = Map.empty,
                adapter_disposables = [], adapter_disposed = False, sessions = [],
                handlers = []\<rparr>;
          (w1, out) = observeAll ext w0 open_editors
      in (add_disposable w1 ObserveSubscription, out))"

text \<open>What can happen to the adapter, and a history of it.\<close>

datatype adapter_action =
    Observe TextEditor
  | Emit TextEditor event
  | DisposeAdapter

fun adapter_step ::
  "externals \<Rightarrow> DocumentSyncAdapter \<Rightarrow> adapter_action \<Rightarrow> DocumentSyncAdapter \<times> notification list" where
  "adapter_step ext w (Observe editor) = observeTextEditor ext w editor"
| "adapter_step ext w (Emit editor ev) = editorEvent ext editor ev w"
| "adapter_step ext w DisposeAdapter = (adapter_dispose w, [])"

fun adapter_run ::
  "externals \<Rightarrow> DocumentSyncAdapter \<Rightarrow> adapter_action list \<Rightarrow> DocumentSyncAdapter \<times> notification list" where
  "adapter_run ext w [] = (w, [])"
| "adapter_run ext w (a # rest) =
     (let (w', out) = adapter_step ext w a;
          (w'', out') = adapter_run ext w' rest
      in (w'', out @ out'))"

text \<open>The sessions of an editor that are not disposed, by address.\<close>

definition live_sessions :: "DocumentSyncAdapter \<Rightarrow> nat \<Rightarrow> nat list" where
  "live_sessions w i =
     filter (\<lambda>a. \<not> disposed (sessions w ! a) \<and> editor_ref (sessions w ! a) = i)
       [0 ..< length (sessions w)]"

section \<open>Sample inputs\<close>

text \<open>
  Collaborators and editors to run the model on: a converter that prefixes the file
  scheme, the field-by-field conversion of a range, and a lower-casing of the letters
  the sample grammar names use.
\<close>

definition sample_externals :: externals where
  "sample_externals =
     \<lparr>pathToUri = (\<lambda>p. ''file://'' @ p),
      atomRangeToLSRange = (\<lambda>r.
        \<lparr>ls_start = \<lparr>line = row (range_start r), character = column (range_start r)\<rparr>,
         ls_end = \<lparr>line = row (range_end r), character = column (range_end r)\<rparr>\<rparr>),
      toLowerCase = map (\<lambda>c. if c = CHR ''T'' then CHR ''t''
                               else if c = CHR ''S'' then CHR ''s'' else c)\<rparr>"

definition unsaved_editor :: TextEditor where
  "unsaved_editor =
     \<lparr>ident = 0, getURI = None, getPath = None, getText = ''x'', grammarName = ''TypeScript''\<rparr>"

definition saved_editor :: TextEditor where
  "saved_editor =
     \<lparr>ident = 1, getURI = Some ''/a.ts'', getPath = Some ''/a.ts'', getText = ''let a'',
      grammarName = ''TypeScript''\<rparr>"

definition sample_edit :: TextEditEvent where
  "sample_edit =
     \<lparr>oldRange = \<lparr>range_start = \<lparr>row = 0, column = 0\<rparr>, range_end = \<lparr>row = 0, column = 0\<rparr>\<rparr>,
      newRange = \<lparr>range_start = \<lparr>row = 0, column = 0\<rparr>, range_end = \<lparr>row = 0, column = 1\<rparr>\<rparr>,
      oldText = [], newText = ''x''\<rparr>"

text \<open>A selector that accepts TypeScript editors, and an adapter in Incremental mode
  constructed while no editor is open.\<close>

definition sample_selector :: "TextEditor \<Rightarrow> bool" where
  "sample_selector editor = (grammarName editor = ''TypeScript'')"

definition sample_adapter :: DocumentSyncAdapter where
  "sample_adapter =
     fst (new_DocumentSyncAdapter sample_externals TextDocumentSyncKind_Incremental
            sample_selector [])"

section \<open>Invariants of a session\<close>

text \<open>The subscriptions the constructor makes for a sync kind.\<close>

definition tracked :: "real \<Rightarrow> subscription list" where
  "tracked kind =
     (case setupChangeTracking kind of None \<Rightarrow> [] | Some c \<Rightarrow> [c]) @ [OnDidSave, OnDidDestroy]"

text \<open>A session of a sync kind holds the subscriptions of its constructor until it is
  disposed, and none afterwards.\<close>

definition session_inv :: "real \<Rightarrow> TextEditorSyncAdapter \<Rightarrow> bool" where
  "session_inv kind s =
     (if disposed s then disposables s = [] else disposables s = tracked kind)"

section \<open>Invariants of the adapter\<close>

text \<open>
  Between two operations of the adapter: a session that is not disposed is the one
  the map holds for its editor, and its teardown callback is registered with that
  editor; a teardown subscription in the composite belongs to a session of the store,
  and that session is in the composite too unless it is disposed.
\<close>

definition adapter_inv :: "DocumentSyncAdapter \<Rightarrow> bool" where
  "adapter_inv w =
     ((\<forall>a < length (sessions w). \<not> disposed (sessions w ! a) \<longrightarrow>
         editors w (editor_ref (sessions w ! a)) = Some a \<and>
         (editor_ref (sessions w ! a), Teardown a) \<in> set (handlers w)) \<and>
      (\<forall>i a. DestroySubscription i a \<in> set (adapter_disposables w) \<longrightarrow>
         a < length (sessions w) \<and>
         (\<not> disposed (sessions w ! a) \<longrightarrow> Sync a \<in> set (adapter_disposables w))))"

text \<open>
  While an event of editor \<open>i\<close> is dispatched and the handlers \<open>hs\<close> are still to
  run: during a destroy event the map has lost the editor already when the first
  teardown callback has run, and every session of the editor that is not disposed yet
  has its teardown callback among \<open>hs\<close>.
\<close>

definition dispatch_inv :: "nat \<Rightarrow> event \<Rightarrow> handler list \<Rightarrow> DocumentSyncAdapter \<Rightarrow> bool" where
  "dispatch_inv i ev hs w =
     ((\<forall>a < length (sessions w). \<not> disposed (sessions w ! a) \<longrightarrow>
         (editor_ref (sessions w ! a), Teardown a) \<in> set (handlers w) \<and>
         (if ev = EditorDidDestroy \<and> editor_ref (sessions w ! a) = i then Teardown a \<in> set hs
          else editors w (editor_ref (sessions w ! a)) = Some a)) \<and>
      (\<forall>i a. DestroySubscription i a \<in> set (adapter_disposables w) \<longrightarrow>
         a < length (sessions w) \<and>
         (\<not> disposed (sessions w ! a) \<longrightarrow> Sync a \<in> set (adapter_disposables w))))"

section \<open>Lemmas about sessions\<close>

lemmas handler_defs = sendFullChanges_def sendIncrementalChanges_def didSave_def
  didDestroy_def didOpen_def getVersionedTextDocumentIdentifier_def

lemmas kind_defs = TextDocumentSyncKind_None_def TextDocumentSyncKind_Full_def
  TextDocumentSyncKind_Incremental_def

lemmas sample_defs = sample_externals_def unsaved_editor_def saved_editor_def sample_edit_def
  getEditorUri_def getLanguageId_def

lemma new_session_inv: "session_inv kind (fst (new_TextEditorSyncAdapter ext editor kind))"
  by (simp add: new_TextEditorSyncAdapter_def session_inv_def tracked_def Let_def)

lemma deliver_keeps_subscriptions:
  "disposables (fst (deliver ext editor s ev)) = disposables s \<and>
   disposed (fst (deliver ext editor s ev)) = disposed s"
  by (cases ev) (simp_all add: handler_defs Let_def)

lemma step_session_inv: "session_inv kind s \<Longrightarrow> session_inv kind (fst (step ext editor s a))"
  by (cases a) (simp_all add: session_inv_def deliver_keeps_subscriptions dispose_def)

lemma run_Cons:
  "fst (run ext s ((editor, a) # rest)) = fst (run ext (fst (step ext editor s a)) rest)"
  "snd (run ext s ((editor, a) # rest)) =
     snd (step ext editor s a) @ snd (run ext (fst (step ext editor s a)) rest)"
  by (simp_all add: split_beta Let_def)

lemma run_session_inv: "session_inv kind s \<Longrightarrow> session_inv kind (fst (run ext s tr))"
proof (induction tr arbitrary: s)
  case Nil
  then show ?case by simp
next
  case (Cons x tr)
  obtain editor a where x: "x = (editor, a)" by (cases x)
  from Cons show ?case unfolding x run_Cons by (simp add: step_session_inv)
qed

lemma reachable_session_inv:
  "session_inv kind (fst (run ext (fst (new_TextEditorSyncAdapter ext editor kind)) tr))"
  by (rule run_session_inv) (rule new_session_inv)

lemma deliver_version:
  "version (fst (deliver ext editor s ev)) =
     version s + length (filter is_change (snd (deliver ext editor s ev)))"
  by (cases ev) (simp_all add: handler_defs Let_def)

lemma deliver_at_most_one_change:
  "length (filter is_change (snd (deliver ext editor s ev))) \<le> 1"
  by (cases ev) (simp_all add: handler_defs Let_def)

lemma step_version:
  "version (fst (step ext editor s a)) =
     version s + length (filter is_change (snd (step ext editor s a)))"
  by (cases a) (simp_all add: deliver_version dispose_def)

lemma run_version:
  "version (fst (run ext s tr)) = version s + length (filter is_change (snd (run ext s tr)))"
proof (induction tr arbitrary: s)
  case Nil
  then show ?case by simp
next
  case (Cons x tr)
  obtain editor a where x: "x = (editor, a)" by (cases x)
  show ?case unfolding x run_Cons by (simp add: Cons.IH step_version)
qed

lemma tracked_Full: "tracked TextDocumentSyncKind_Full = [OnDidChange, OnDidSave, OnDidDestroy]"
  by (simp add: tracked_def setupChangeTracking_def)

lemma tracked_Incremental:
  "tracked TextDocumentSyncKind_Incremental = [OnDidChangeText, OnDidSave, OnDidDestroy]"
  by (simp add: tracked_def setupChangeTracking_def kind_defs)

lemma tracked_other:
  "kind \<noteq> TextDocumentSyncKind_Full \<Longrightarrow> kind \<noteq> TextDocumentSyncKind_Incremental \<Longrightarrow>
   tracked kind = [OnDidSave, OnDidDestroy]"
  by (simp add: tracked_def setupChangeTracking_def)

lemma step_without_change_subscription:
  assumes "OnDidChange \<notin> set (disposables s)" and "OnDidChangeText \<notin> set (disposables s)"
  shows "filter is_change (snd (step ext editor s a)) = []"
    and "OnDidChange \<notin> set (disposables (fst (step ext editor s a)))"
    and "OnDidChangeText \<notin> set (disposables (fst (step ext editor s a)))"
proof -
  show "filter is_change (snd (step ext editor s a)) = []"
  proof (cases a)
    case (Event ev)
    then show ?thesis using assms by (cases ev) (simp_all add: didSave_def didDestroy_def)
  qed simp
  show "OnDidChange \<notin> set (disposables (fst (step ext editor s a)))"
    "OnDidChangeText \<notin> set (disposables (fst (step ext editor s a)))"
    using assms by (cases a; simp add: deliver_keeps_subscriptions dispose_def)+
qed

lemma run_without_change_subscription:
  "OnDidChange \<notin> set (disposables s) \<Longrightarrow> OnDidChangeText \<notin> set (disposables s) \<Longrightarrow>
   filter is_change (snd (run ext s tr)) = []"
proof (induction tr arbitrary: s)
  case Nil
  then show ?case by simp
next
  case (Cons x tr)
  obtain editor a where x: "x = (editor, a)" by (cases x)
  show ?case unfolding x run_Cons
    using Cons.prems by (simp add: step_without_change_subscription Cons.IH)
qed

lemma deliver_unsubscribed: "disposables s = [] \<Longrightarrow> deliver ext editor s ev = (s, [])"
  by (cases ev) simp_all

lemma run_unsubscribed: "disposables s = [] \<Longrightarrow> snd (run ext s tr) = []"
proof (induction tr arbitrary: s)
  case Nil
  then show ?case by simp
next
  case (Cons x tr)
  obtain editor a where x: "x = (editor, a)" by (cases x)
  have "disposables (fst (step ext editor s a)) = [] \<and> snd (step ext editor s a) = []"
    using Cons.prems by (cases a) (simp_all add: deliver_unsubscribed dispose_def)
  then show ?case unfolding x run_Cons by (simp add: Cons.IH)
qed

section \<open>Documents without a location\<close>

text \<open>
  C1. The claim: for a document whose editor has no URI and no path, no open, change,
  save or close notification is sent, and the converter is never called for an absent
  location. The guard \<^verbatim>\<open>getURI() == null\<close> stands in \<^verbatim>\<open>didOpen\<close> and
  \<^verbatim>\<open>didDestroy\<close> only. Evaluated on a session in Full mode over an editor that was
  never saved: the constructor sends nothing, and the editor's next change raises the
  version to 2 and sends a change notification whose URI is the conversion of the
  empty string. \<^verbatim>\<open>sendIncrementalChanges\<close> and \<^verbatim>\<open>didSave\<close> on the same editor send
  their notifications with that URI too.
\<close>

theorem unsaved_editor_changes_are_sent:
  "getURI unsaved_editor = None \<and> getPath unsaved_editor = None \<and>
   new_TextEditorSyncAdapter sample_externals unsaved_editor TextDocumentSyncKind_Full =
     (\<lparr>editor_ref = 0, version = 1, disposables = [OnDidChange, OnDidSave, OnDidDestroy],
       disposed = False\<rparr>, []) \<and>
   deliver sample_externals unsaved_editor
     \<lparr>editor_ref = 0, version = 1, disposables = [OnDidChange, OnDidSave, OnDidDestroy],
      disposed = False\<rparr> EditorDidChange =
     (\<lparr>editor_ref = 0, version = 2, disposables = [OnDidChange, OnDidSave, OnDidDestroy],
       disposed = False\<rparr>,
      [DidChangeTextDocument \<lparr>vt_uri = ''file://'', vt_version = 2\<rparr>
         [\<lparr>cc_range = None, cc_rangeLength = None, cc_text = ''x''\<rparr>]]) \<and>
   snd (sendIncrementalChanges sample_externals unsaved_editor
     \<lparr>editor_ref = 0, version = 1, disposables = [OnDidChangeText, OnDidSave, OnDidDestroy],
      disposed = False\<rparr> [sample_edit]) =
      [DidChangeTextDocument \<lparr>vt_uri = ''file://'', vt_version = 2\<rparr>
         [\<lparr>cc_range = Some \<lparr>ls_start = \<lparr>line = 0, character = 0\<rparr>,
                             ls_end = \<lparr>line = 0, character = 0\<rparr>\<rparr>,
           cc_rangeLength = Some 0, cc_text = ''x''\<rparr>]] \<and>
   didSave sample_externals unsaved_editor =
     [DidSaveTextDocument ''file://'',
      DidChangeWatchedFiles [\<lparr>fe_uri = ''file://'', fe_type = Changed\<rparr>]]"
  by (simp add: new_TextEditorSyncAdapter_def setupChangeTracking_def kind_defs handler_defs
      sample_defs textEditToContentChange_def Let_def)

text \<open>The two guarded handlers are silent for such an editor, whatever the session.\<close>

lemma unsaved_open_and_close_are_silent:
  "getURI editor = None \<Longrightarrow>
   didOpen ext editor s = [] \<and> didDestroy ext editor = [] \<and>
   snd (new_TextEditorSyncAdapter ext editor kind) = [] \<and>
   snd (deliver ext editor s EditorDidDestroy) = []"
  by (simp add: handler_defs new_TextEditorSyncAdapter_def Let_def)

lemma unsaved_open_and_close_are_silent_witness:
  "getURI unsaved_editor = None \<and>
   snd (new_TextEditorSyncAdapter sample_externals unsaved_editor TextDocumentSyncKind_Incremental) = [] \<and>
   snd (deliver sample_externals unsaved_editor
          (fst (new_TextEditorSyncAdapter sample_externals unsaved_editor
                  TextDocumentSyncKind_Incremental)) EditorDidDestroy) = []"
proof -
  have none: "getURI unsaved_editor = None" by (simp add: unsaved_editor_def)
  from unsaved_open_and_close_are_silent [OF none] none show ?thesis by simp
qed

section \<open>The version counter\<close>

text \<open>
  C2. The version of a session is 1 after construction. Every action on a session (an
  event delivered, or dispose) adds to the version the number of change notifications
  it sends, which is at most one: \<^verbatim>\<open>sendFullChanges\<close> adds one, and
  \<^verbatim>\<open>sendIncrementalChanges\<close> adds one for a batch with any positive number of edits
  and nothing for an empty one. Save, destroy and dispose leave the version as it is.
  Over any history the version grows by the number of change notifications sent, so it
  never decreases.
\<close>

theorem version_counts_change_notifications:
  "version (fst (new_TextEditorSyncAdapter ext editor kind)) = 1 \<and>
   version (fst (step ext editor s a)) =
     version s + length (filter is_change (snd (step ext editor s a))) \<and>
   length (filter is_change (snd (step ext editor s a))) \<le> 1 \<and>
   version (fst (sendFullChanges ext editor s)) = version s + 1 \<and>
   version (fst (sendIncrementalChanges ext editor s changes)) =
     version s + (if changes = [] then 0 else 1) \<and>
   version (fst (step ext editor s (Event EditorDidSave))) = version s \<and>
   version (fst (step ext editor s (Event EditorDidDestroy))) = version s \<and>
   version (fst (step ext editor s Dispose)) = version s \<and>
   version (fst (run ext s tr)) =
     version s + length (filter is_change (snd (run ext s tr))) \<and>
   version s \<le> version (fst (run ext s tr))"
proof -
  have "length (filter is_change (snd (step ext editor s a))) \<le> 1"
    by (cases a) (simp_all add: deliver_at_most_one_change [simplified])
  moreover have "version (fst (new_TextEditorSyncAdapter ext editor kind)) = 1"
    by (simp add: new_TextEditorSyncAdapter_def Let_def)
  moreover have "version (fst (sendIncrementalChanges ext editor s changes)) =
     version s + (if changes = [] then 0 else 1)"
    by (simp add: sendIncrementalChanges_def Let_def)
  moreover have "version (fst (sendFullChanges ext editor s)) = version s + 1"
    by (simp add: sendFullChanges_def Let_def)
  moreover have "version (fst (step ext editor s (Event EditorDidSave))) = version s"
      "version (fst (step ext editor s (Event EditorDidDestroy))) = version s"
      "version (fst (step ext editor s Dispose)) = version s"
    by (simp_all add: dispose_def)
  moreover have "version s \<le> version (fst (run ext s tr))"
    by (simp add: run_version)
  ultimately show ?thesis
    using step_version [of ext editor s a] run_version [of ext s tr] by simp
qed


text \<open>The history of the spec's scenario with a batch of two edits: one increment.\<close>

theorem version_counts_change_notifications_witness:
  "version (fst (run sample_externals
      (fst (new_TextEditorSyncAdapter sample_externals saved_editor TextDocumentSyncKind_Incremental))
      [(saved_editor, Event (BufferDidChangeText [sample_edit, sample_edit])),
       (saved_editor, Event EditorDidSave),
       (saved_editor, Event EditorDidDestroy),
       (saved_editor, Dispose)])) = 2"
  using version_counts_change_notifications
    [of sample_externals saved_editor TextDocumentSyncKind_Incremental
        "fst (new_TextEditorSyncAdapter sample_externals saved_editor TextDocumentSyncKind_Incremental)"
        Dispose "[]"
        "[(saved_editor, Event (BufferDidChangeText [sample_edit, sample_edit])),
          (saved_editor, Event EditorDidSave),
          (saved_editor, Event EditorDidDestroy),
          (saved_editor, Dispose)]"]
  by (simp add: new_TextEditorSyncAdapter_def setupChangeTracking_def kind_defs handler_defs
      dispose_def Let_def)

section \<open>What the capability check accepts\<close>

text \<open>
  C3. The claim: \<^verbatim>\<open>canAdapt\<close> is true if and only if the capability is exactly Full
  or exactly Incremental, and false for None and every other value. The source
  compares with \<^verbatim>\<open>===\<close> against Incremental and with \<^verbatim>\<open>==\<close> against Full, under a
  comment that says "either being Full or Incremental". Evaluated on the capability
  \<^verbatim>\<open>true\<close>, which is neither of the two: \<^verbatim>\<open>==\<close> converts it to 1, and \<^verbatim>\<open>canAdapt\<close>
  returns true, whatever the conversions of the language.
\<close>

theorem canAdapt_accepts_true:
  "canAdapt l \<lparr>textDocumentSync = JBoolean True\<rparr> = Inr True \<and>
   JBoolean True \<noteq> JNumber (Finite TextDocumentSyncKind_Full) \<and>
   JBoolean True \<noteq> JNumber (Finite TextDocumentSyncKind_Incremental)"
  by (simp add: canAdapt_def kind_defs)

text \<open>
  On numbers, and on an absent capability, the check is what the claim says: true
  exactly for Full and Incremental.
\<close>

lemma canAdapt_on_numbers:
  "canAdapt l \<lparr>textDocumentSync = JNumber x\<rparr> =
     Inr (x = Finite TextDocumentSyncKind_Full \<or> x = Finite TextDocumentSyncKind_Incremental) \<and>
   canAdapt l \<lparr>textDocumentSync = JNumber (Finite TextDocumentSyncKind_None)\<rparr> = Inr False \<and>
   canAdapt l \<lparr>textDocumentSync = JUndefined\<rparr> = Inr False \<and>
   canAdapt l \<lparr>textDocumentSync = JNull\<rparr> = Inr False"
  by (auto simp: canAdapt_def kind_defs)

text \<open>
  The other values go through the conversions: a string is accepted when it converts
  to 1, an array when its joined elements do (the array of the number 1, say), an
  object never unless \<^verbatim>\<open>'[object Object]'\<close> converted to 1; an object with an own
  property \<^verbatim>\<open>toString\<close> makes the comparison throw.
\<close>

lemma canAdapt_converts_other_values:
  "canAdapt l \<lparr>textDocumentSync = JBoolean b\<rparr> = Inr b \<and>
   canAdapt l \<lparr>textDocumentSync = JString s\<rparr> = Inr (stringToNumber l s = Finite 1) \<and>
   canAdapt l \<lparr>textDocumentSync = JArray [JNumber x]\<rparr> =
     Inr (stringToNumber l (numberToString l x) = Finite 1) \<and>
   canAdapt l \<lparr>textDocumentSync = JArray []\<rparr> = Inr (stringToNumber l [] = Finite 1) \<and>
   canAdapt l \<lparr>textDocumentSync = JObject [(''change'', JNumber (Finite 2))]\<rparr> =
     Inr (stringToNumber l ''[object Object]'' = Finite 1) \<and>
   canAdapt l \<lparr>textDocumentSync = JObject [(''toString'', v)]\<rparr> = Inl TypeError"
  by (simp add: canAdapt_def kind_defs)

section \<open>Change notifications\<close>

text \<open>
  C4. A change event of the buffer with no edits, delivered to any session, sends
  nothing and leaves the session as it was, its version included. (A session in
  Full mode does not listen to the buffer's batches at all; it listens to the editor's
  \<^verbatim>\<open>onDidChange\<close>, which carries no batch.)
\<close>

theorem empty_batch_is_dropped:
  "sendIncrementalChanges ext editor s [] = (s, []) \<and>
   step ext editor s (Event (BufferDidChangeText [])) = (s, []) \<and>
   version (fst (step ext editor s (Event (BufferDidChangeText [])))) = version s \<and>
   filter is_change (snd (step ext editor s (Event (BufferDidChangeText [])))) = []"
  by (simp add: sendIncrementalChanges_def)

theorem empty_batch_is_dropped_witness:
  "step sample_externals saved_editor
     (fst (new_TextEditorSyncAdapter sample_externals saved_editor TextDocumentSyncKind_Incremental))
     (Event (BufferDidChangeText [])) =
   (\<lparr>editor_ref = 1, version = 1, disposables = [OnDidChangeText, OnDidSave, OnDidDestroy],
     disposed = False\<rparr>, [])"
  using empty_batch_is_dropped [of sample_externals saved_editor
     "fst (new_TextEditorSyncAdapter sample_externals saved_editor TextDocumentSyncKind_Incremental)"]
  by (simp add: new_TextEditorSyncAdapter_def setupChangeTracking_def kind_defs Let_def sample_defs)

text \<open>
  C5. A session constructed in Incremental mode and not disposed answers a batch with
  at least one edit by one change notification with the incremented version. Its
  records are as many as the edits and in their order, and the record of an edit has
  as range the conversion of the edit's old range, as range length the length of the
  old text and as text the new text. The editor's \<^verbatim>\<open>onDidChange\<close> sends nothing in
  this mode.
\<close>

theorem incremental_records:
  assumes s: "s = fst (run ext (fst (new_TextEditorSyncAdapter ext editor0
                    TextDocumentSyncKind_Incremental)) tr)"
    and live: "\<not> disposed s"
    and nonempty: "changes \<noteq> []"
  shows "step ext editor s (Event (BufferDidChangeText changes)) =
       (s\<lparr>version := version s + 1\<rparr>,
        [DidChangeTextDocument \<lparr>vt_uri = getEditorUri ext editor, vt_version = version s + 1\<rparr>
           (map (textEditToContentChange ext) changes)]) \<and>
     length (map (textEditToContentChange ext) changes) = length changes \<and>
     (\<forall>i < length changes.
        map (textEditToContentChange ext) changes ! i =
          \<lparr>cc_range = Some (atomRangeToLSRange ext (oldRange (changes ! i))),
           cc_rangeLength = Some (length (oldText (changes ! i))),
           cc_text = newText (changes ! i)\<rparr>) \<and>
     step ext editor s (Event EditorDidChange) = (s, [])"
proof -
  have "session_inv TextDocumentSyncKind_Incremental s"
    unfolding s by (rule reachable_session_inv)
  with live have d: "disposables s = [OnDidChangeText, OnDidSave, OnDidDestroy]"
    by (simp add: session_inv_def tracked_Incremental)
  have "step ext editor s (Event (BufferDidChangeText changes)) =
       (s\<lparr>version := version s + 1\<rparr>,
        [DidChangeTextDocument \<lparr>vt_uri = getEditorUri ext editor, vt_version = version s + 1\<rparr>
           (map (textEditToContentChange ext) changes)])"
    using nonempty by (simp add: d sendIncrementalChanges_def Let_def
        getVersionedTextDocumentIdentifier_def)
  moreover have "\<forall>i < length changes.
        map (textEditToContentChange ext) changes ! i =
          \<lparr>cc_range = Some (atomRangeToLSRange ext (oldRange (changes ! i))),
           cc_rangeLength = Some (length (oldText (changes ! i))),
           cc_text = newText (changes ! i)\<rparr>"
    by (simp add: textEditToContentChange_def)
  moreover have "step ext editor s (Event EditorDidChange) = (s, [])"
    by (simp add: d)
  ultimately show ?thesis by simp
qed

theorem incremental_records_witness:
  "\<not> disposed (fst (new_TextEditorSyncAdapter sample_externals saved_editor
                      TextDocumentSyncKind_Incremental)) \<and>
   [sample_edit] \<noteq> [] \<and>
   step sample_externals saved_editor
     (fst (new_TextEditorSyncAdapter sample_externals saved_editor TextDocumentSyncKind_Incremental))
     (Event (BufferDidChangeText [sample_edit])) =
   (\<lparr>editor_ref = 1, version = 2, disposables = [OnDidChangeText, OnDidSave, OnDidDestroy],
     disposed = False\<rparr>,
    [DidChangeTextDocument \<lparr>vt_uri = ''file:///a.ts'', vt_version = 2\<rparr>
       [\<lparr>cc_range = Some \<lparr>ls_start = \<lparr>line = 0, character = 0\<rparr>,
                           ls_end = \<lparr>line = 0, character = 0\<rparr>\<rparr>,
         cc_rangeLength = Some 0, cc_text = ''x''\<rparr>]])"
proof -
  let ?init = "fst (new_TextEditorSyncAdapter sample_externals saved_editor
                      TextDocumentSyncKind_Incremental)"
  have reach: "?init = fst (run sample_externals ?init [])" by simp
  have live: "\<not> disposed ?init" by (simp add: new_TextEditorSyncAdapter_def Let_def)
  have nonempty: "[sample_edit] \<noteq> []" by simp
  from incremental_records [OF reach live nonempty, of saved_editor] live show ?thesis
    by (simp add: new_TextEditorSyncAdapter_def setupChangeTracking_def kind_defs Let_def
        sample_defs textEditToContentChange_def)
qed

text \<open>
  C6. For a session constructed in Full mode, the change notifications of any action
  are: none, unless the action is the editor's change event and the session is not
  disposed; then exactly one, with the incremented version, whose only record has no
  range, no range length, and the whole text of the editor at that moment.
\<close>

theorem full_records:
  assumes s: "s = fst (run ext (fst (new_TextEditorSyncAdapter ext editor0
                    TextDocumentSyncKind_Full)) tr)"
  shows "filter is_change (snd (step ext editor s a)) =
           (if a = Event EditorDidChange \<and> \<not> disposed s
            then [DidChangeTextDocument
                    \<lparr>vt_uri = getEditorUri ext editor, vt_version = version s + 1\<rparr>
                    [\<lparr>cc_range = None, cc_rangeLength = None, cc_text = getText editor\<rparr>]]
            else [])"
proof -
  have inv: "session_inv TextDocumentSyncKind_Full s"
    unfolding s by (rule reachable_session_inv)
  show ?thesis
  proof (cases a)
    case Dispose
    then show ?thesis by simp
  next
    case (Event ev)
    show ?thesis
    proof (cases "disposed s")
      case True
      with inv have "disposables s = []" by (simp add: session_inv_def)
      then show ?thesis using Event True by (cases ev) simp_all
    next
      case False
      with inv have "disposables s = [OnDidChange, OnDidSave, OnDidDestroy]"
        by (simp add: session_inv_def tracked_Full)
      then show ?thesis using Event False
        by (cases ev) (simp_all add: handler_defs Let_def)
    qed
  qed
qed

theorem full_records_witness:
  "filter is_change (snd (step sample_externals saved_editor
     (fst (new_TextEditorSyncAdapter sample_externals saved_editor TextDocumentSyncKind_Full))
     (Event EditorDidChange))) =
   [DidChangeTextDocument \<lparr>vt_uri = ''file:///a.ts'', vt_version = 2\<rparr>
      [\<lparr>cc_range = None, cc_rangeLength = None, cc_text = ''let a''\<rparr>]]"
proof -
  let ?init = "fst (new_TextEditorSyncAdapter sample_externals saved_editor
                      TextDocumentSyncKind_Full)"
  have reach: "?init = fst (run sample_externals ?init [])" by simp
  from full_records [OF reach, of saved_editor "Event EditorDidChange"] show ?thesis
    by (simp add: new_TextEditorSyncAdapter_def Let_def sample_defs)
qed

section \<open>Save\<close>

text \<open>
  C7. A save event handled by a session (one that is not disposed) sends, within that
  one handling, the save notification first and the watched-files notification second;
  the second carries one file event with the same URI and the change type Changed.
  The session itself is unchanged. A disposed session sends nothing.
\<close>

theorem save_then_watched_files:
  assumes "s = fst (run ext (fst (new_TextEditorSyncAdapter ext editor0 kind)) tr)"
  shows "step ext editor s (Event EditorDidSave) =
           (s, if disposed s then []
               else [DidSaveTextDocument (getEditorUri ext editor),
                     DidChangeWatchedFiles
                       [\<lparr>fe_uri = getEditorUri ext editor, fe_type = Changed\<rparr>]])"
proof -
  have "session_inv kind s" unfolding assms by (rule reachable_session_inv)
  then show ?thesis by (simp add: session_inv_def tracked_def didSave_def split: if_splits)
qed

theorem save_then_watched_files_witness:
  "step sample_externals saved_editor
     (fst (new_TextEditorSyncAdapter sample_externals saved_editor TextDocumentSyncKind_Incremental))
     (Event EditorDidSave) =
   (\<lparr>editor_ref = 1, version = 1, disposables = [OnDidChangeText, OnDidSave, OnDidDestroy],
     disposed = False\<rparr>,
    [DidSaveTextDocument ''file:///a.ts'',
     DidChangeWatchedFiles [\<lparr>fe_uri = ''file:///a.ts'', fe_type = Changed\<rparr>]])"
proof -
  let ?init = "fst (new_TextEditorSyncAdapter sample_externals saved_editor
                      TextDocumentSyncKind_Incremental)"
  have reach: "?init = fst (run sample_externals ?init [])" by simp
  from save_then_watched_files [OF reach, of saved_editor] show ?thesis
    by (simp add: new_TextEditorSyncAdapter_def setupChangeTracking_def kind_defs Let_def
        sample_defs)
qed

section \<open>Dispose\<close>

text \<open>
  C9. \<^verbatim>\<open>dispose\<close> is idempotent and sends nothing: a second call changes nothing,
  two calls in a row leave the once-disposed session and no notification, and after
  dispose no event sends anything any more. An action that sends a close notification
  is the destroy event. (The model is total: no branch of \<^verbatim>\<open>dispose\<close> throws.)
\<close>

theorem dispose_is_idempotent_and_silent:
  assumes "s = fst (run ext (fst (new_TextEditorSyncAdapter ext editor0 kind)) tr)"
  shows "dispose (dispose s) = dispose s \<and>
    step ext editor s Dispose = (dispose s, []) \<and>
    run ext s [(editor, Dispose), (editor', Dispose)] = (dispose s, []) \<and>
    snd (run ext (dispose s) tr') = [] \<and>
    (filter is_close (snd (step ext editor s a)) \<noteq> [] \<longrightarrow> a = Event EditorDidDestroy)"
proof -
  have inv: "session_inv kind s" unfolding assms by (rule reachable_session_inv)
  have idem: "dispose (dispose s) = dispose s" by (simp add: dispose_def)
  have "disposables (dispose s) = []" using inv by (simp add: dispose_def session_inv_def)
  then have quiet: "snd (run ext (dispose s) tr') = []" by (rule run_unsubscribed)
  have close: "filter is_close (snd (step ext editor s a)) \<noteq> [] \<longrightarrow> a = Event EditorDidDestroy"
  proof (cases a)
    case (Event ev)
    then show ?thesis by (cases ev) (simp_all add: handler_defs Let_def)
  qed simp
  show ?thesis using idem quiet close by (simp add: idem)
qed

theorem dispose_is_idempotent_and_silent_witness:
  "run sample_externals
     (fst (new_TextEditorSyncAdapter sample_externals saved_editor TextDocumentSyncKind_Full))
     [(saved_editor, Event EditorDidDestroy), (saved_editor, Dispose), (saved_editor, Dispose),
      (saved_editor, Event EditorDidDestroy), (saved_editor, Event EditorDidChange)] =
   (\<lparr>editor_ref = 1, version = 1, disposables = [], disposed = True\<rparr>,
    [DidCloseTextDocument ''file:///a.ts'']) \<and>
   filter is_close (snd (step sample_externals saved_editor
     (fst (new_TextEditorSyncAdapter sample_externals saved_editor TextDocumentSyncKind_Full))
     (Event EditorDidDestroy))) \<noteq> []"
proof -
  let ?init = "fst (new_TextEditorSyncAdapter sample_externals saved_editor
                      TextDocumentSyncKind_Full)"
  have reach: "?init = fst (run sample_externals ?init [])" by simp
  from dispose_is_idempotent_and_silent
         [OF reach, of saved_editor saved_editor "[]" "Event EditorDidDestroy"]
  show ?thesis
    by (simp add: new_TextEditorSyncAdapter_def setupChangeTracking_def kind_defs Let_def
        sample_defs dispose_def didDestroy_def)
qed

section \<open>A sync kind that is neither Full nor Incremental\<close>

text \<open>
  C10. With a sync kind other than Full and Incremental the constructor still returns
  a session, with version 1 and the save and destroy subscriptions only, and sends the
  open notification under the usual condition. Over any history of that session the
  version stays 1 and no change notification is sent, while save and destroy events
  are answered as by any other session as long as it is not disposed.
\<close>

theorem unrecognised_kind_tracks_no_changes:
  assumes "kind \<noteq> TextDocumentSyncKind_Full" and "kind \<noteq> TextDocumentSyncKind_Incremental"
  shows "new_TextEditorSyncAdapter ext editor0 kind =
      (\<lparr>editor_ref = ident editor0, version = 1, disposables = [OnDidSave, OnDidDestroy],
        disposed = False\<rparr>,
       if getURI editor0 = None then []
       else [DidOpenTextDocument
               \<lparr>td_uri = getEditorUri ext editor0,
                td_languageId = toLowerCase ext (getLanguageId editor0),
                td_version = 1, td_text = getText editor0\<rparr>]) \<and>
    version (fst (run ext (fst (new_TextEditorSyncAdapter ext editor0 kind)) tr)) = 1 \<and>
    filter is_change (snd (run ext (fst (new_TextEditorSyncAdapter ext editor0 kind)) tr)) = [] \<and>
    (\<not> disposed (fst (run ext (fst (new_TextEditorSyncAdapter ext editor0 kind)) tr)) \<longrightarrow>
       snd (step ext editor (fst (run ext (fst (new_TextEditorSyncAdapter ext editor0 kind)) tr))
              (Event EditorDidSave)) = didSave ext editor \<and>
       snd (step ext editor (fst (run ext (fst (new_TextEditorSyncAdapter ext editor0 kind)) tr))
              (Event EditorDidDestroy)) = didDestroy ext editor)"
proof -
  let ?init = "fst (new_TextEditorSyncAdapter ext editor0 kind)"
  let ?s = "fst (run ext ?init tr)"
  have new: "new_TextEditorSyncAdapter ext editor0 kind =
      (\<lparr>editor_ref = ident editor0, version = 1, disposables = [OnDidSave, OnDidDestroy],
        disposed = False\<rparr>,
       if getURI editor0 = None then []
       else [DidOpenTextDocument
               \<lparr>td_uri = getEditorUri ext editor0,
                td_languageId = toLowerCase ext (getLanguageId editor0),
                td_version = 1, td_text = getText editor0\<rparr>])"
    using assms by (simp add: new_TextEditorSyncAdapter_def setupChangeTracking_def didOpen_def Let_def)
  have nochange: "filter is_change (snd (run ext ?init tr)) = []"
    using run_without_change_subscription [of ?init ext tr] by (simp add: new)
  have v: "version ?s = 1"
    using run_version [of ext ?init tr] nochange by (simp add: new)
  have inv: "session_inv kind ?s" by (rule reachable_session_inv)
  have live: "\<not> disposed ?s \<longrightarrow>
       snd (step ext editor ?s (Event EditorDidSave)) = didSave ext editor \<and>
       snd (step ext editor ?s (Event EditorDidDestroy)) = didDestroy ext editor"
    using inv assms by (simp add: session_inv_def tracked_other)
  show ?thesis using new nochange v live by blast
qed

theorem unrecognised_kind_tracks_no_changes_witness:
  "TextDocumentSyncKind_None \<noteq> TextDocumentSyncKind_Full \<and>
   TextDocumentSyncKind_None \<noteq> TextDocumentSyncKind_Incremental \<and>
   run sample_externals
     (fst (new_TextEditorSyncAdapter sample_externals saved_editor TextDocumentSyncKind_None))
     [(saved_editor, Event EditorDidChange),
      (saved_editor, Event (BufferDidChangeText [sample_edit])),
      (saved_editor, Event EditorDidSave),
      (saved_editor, Event EditorDidDestroy)] =
   (\<lparr>editor_ref = 1, version = 1, disposables = [OnDidSave, OnDidDestroy], disposed = False\<rparr>,
    [DidSaveTextDocument ''file:///a.ts'',
     DidChangeWatchedFiles [\<lparr>fe_uri = ''file:///a.ts'', fe_type = Changed\<rparr>],
     DidCloseTextDocument ''file:///a.ts''])"
proof -
  have a: "TextDocumentSyncKind_None \<noteq> TextDocumentSyncKind_Full"
    and b: "TextDocumentSyncKind_None \<noteq> TextDocumentSyncKind_Incremental"
    by (simp_all add: kind_defs)
  from unrecognised_kind_tracks_no_changes [OF a b, of sample_externals saved_editor "[]" saved_editor]
  show ?thesis
    by (simp add: kind_defs sample_defs didSave_def didDestroy_def)
qed

section \<open>Lemmas about the adapter\<close>

lemma observe_rejected:
  "editors w (ident editor) \<noteq> None \<or> \<not> editorSelector w editor \<Longrightarrow>
   observeTextEditor ext w editor = (w, [])"
  by (auto simp: observeTextEditor_def)

lemma observe_accepted:
  assumes "editors w (ident editor) = None" and "editorSelector w editor"
  shows "observeTextEditor ext w editor =
     (w\<lparr>sessions := sessions w @ [fst (new_TextEditorSyncAdapter ext editor (documentSyncKind w))],
        handlers := handlers w @ [(ident editor, SessionHandlers (length (sessions w))),
                                  (ident editor, Teardown (length (sessions w)))],
        editors := (editors w)(ident editor \<mapsto> length (sessions w)),
        adapter_disposables :=
          (if adapter_disposed w then adapter_disposables w
           else adapter_disposables w @
                  [Sync (length (sessions w)),
                   DestroySubscription (ident editor) (length (sessions w))])\<rparr>,
      snd (new_TextEditorSyncAdapter ext editor (documentSyncKind w)))"
  using assms
  by (simp add: observeTextEditor_def add_disposable_def Let_def split_beta)

lemma new_session_fields:
  "editor_ref (fst (new_TextEditorSyncAdapter ext editor kind)) = ident editor"
  "\<not> disposed (fst (new_TextEditorSyncAdapter ext editor kind))"
  by (simp_all add: new_TextEditorSyncAdapter_def Let_def)

lemma observe_inv:
  assumes inv: "adapter_inv w"
  shows "adapter_inv (fst (observeTextEditor ext w editor))"
proof (cases "editors w (ident editor) = None \<and> editorSelector w editor")
  case False
  then show ?thesis using inv by (simp add: observe_rejected)
next
  case True
  then have none: "editors w (ident editor) = None" and sel: "editorSelector w editor" by simp_all
  let ?n = "length (sessions w)"
  have old: "a < ?n \<Longrightarrow> \<not> disposed (sessions w ! a) \<Longrightarrow> editor_ref (sessions w ! a) \<noteq> ident editor" for a
    using inv none unfolding adapter_inv_def by force
  show ?thesis
    unfolding observe_accepted [OF none sel] adapter_inv_def
  proof (intro conjI allI impI, goal_cases)
    case (1 a)
    then show ?case
      using inv old [of a] unfolding adapter_inv_def
      by (cases "a < ?n") (auto simp: nth_append new_session_fields less_Suc_eq)
  next
    case (2 a)
    then show ?case
      using inv old [of a] unfolding adapter_inv_def
      by (cases "a < ?n") (auto simp: nth_append new_session_fields less_Suc_eq)
  next
    case (3 i a)
    then show ?case
      using inv unfolding adapter_inv_def
      by (auto simp: less_Suc_eq split: if_splits)
  next
    case (4 i a)
    then show ?case
      using inv unfolding adapter_inv_def
      by (cases "a < ?n") (auto simp: nth_append new_session_fields less_Suc_eq split: if_splits)
  qed
qed


lemma deliver_keeps_editor_ref: "editor_ref (fst (deliver ext editor s ev)) = editor_ref s"
  by (cases ev) (simp_all add: handler_defs Let_def)

lemma disposed_dispose: "disposed (dispose s)" "editor_ref (dispose s) = editor_ref s"
  by (simp_all add: dispose_def)

lemma dispatch_inv_start:
  assumes "adapter_inv w"
  shows "dispatch_inv i ev (registered w i) w"
  unfolding dispatch_inv_def
proof (intro conjI allI impI, goal_cases)
  case (1 a)
  then show ?case using assms unfolding adapter_inv_def by blast
next
  case (2 a)
  then have "(editor_ref (sessions w ! a), Teardown a) \<in> set (handlers w)"
    and "editors w (editor_ref (sessions w ! a)) = Some a"
    using assms unfolding adapter_inv_def by blast+
  then show ?case by (force simp: registered_def)
next
  case (3 i a)
  then show ?case using assms unfolding adapter_inv_def by blast
next
  case (4 i a)
  then show ?case using assms unfolding adapter_inv_def by blast
qed

lemma dispatch_inv_end: "dispatch_inv i ev [] w \<Longrightarrow> adapter_inv w"
  unfolding dispatch_inv_def adapter_inv_def by (auto split: if_splits)

lemma run_handler_session:
  "a < length (sessions w) \<Longrightarrow>
   fst (run_handler ext editor ev w (SessionHandlers a)) =
     w\<lparr>sessions := (sessions w)[a := fst (deliver ext editor (sessions w ! a) ev)]\<rparr>"
  "\<not> a < length (sessions w) \<Longrightarrow> fst (run_handler ext editor ev w (SessionHandlers a)) = w"
  by (simp_all add: run_handler_def split_beta Let_def)

lemma run_handler_teardown:
  "fst (run_handler ext editor ev w (Teardown a)) =
     (if ev = EditorDidDestroy then teardown w (ident editor) a else w)"
  by (simp add: run_handler_def)

lemma teardown_fields:
  "editors (teardown w i a) = (editors w)(i := None)"
  "handlers (teardown w i a) = handlers w"
  "adapter_disposed (teardown w i a) = adapter_disposed w"
  "adapter_disposables (teardown w i a) =
     (if adapter_disposed w then adapter_disposables w
      else removeAll (Sync a) (adapter_disposables w))"
  "sessions (teardown w i a) =
     (if a < length (sessions w) then (sessions w)[a := dispose (sessions w ! a)] else sessions w)"
  by (simp_all add: teardown_def remove_disposable_def dispose_session_def Let_def)

lemma dispatch_inv_step:
  assumes "dispatch_inv (ident editor) ev (h # hs) w"
  shows "dispatch_inv (ident editor) ev hs (fst (run_handler ext editor ev w h))"
proof (cases h)
  case (SessionHandlers a0)
  show ?thesis
  proof (cases "a0 < length (sessions w)")
    case False
    then show ?thesis using assms SessionHandlers
      by (auto simp: run_handler_session dispatch_inv_def split: if_splits)
  next
    case True
    let ?w = "fst (run_handler ext editor ev w (SessionHandlers a0))"
    have same: "disposed (sessions ?w ! a) = disposed (sessions w ! a)"
      "editor_ref (sessions ?w ! a) = editor_ref (sessions w ! a)"
      if "a < length (sessions w)" for a
      using that True
      by (simp_all add: run_handler_session nth_list_update deliver_keeps_editor_ref
          deliver_keeps_subscriptions)
    have rest: "length (sessions ?w) = length (sessions w)"
      "handlers ?w = handlers w" "editors ?w = editors w"
      "adapter_disposables ?w = adapter_disposables w"
      using True by (simp_all add: run_handler_session)
    have "dispatch_inv (ident editor) ev hs ?w"
      using assms unfolding SessionHandlers dispatch_inv_def rest
      by (auto simp: same split: if_splits)
    then show ?thesis by (simp add: SessionHandlers)
  qed
next
  case (Teardown a0)
  show ?thesis
  proof (cases "ev = EditorDidDestroy")
    case False
    then show ?thesis using assms Teardown
      by (auto simp: run_handler_teardown dispatch_inv_def)
  next
    case True
    let ?w = "teardown w (ident editor) a0"
    have w': "fst (run_handler ext editor ev w h) = ?w"
      using True Teardown by (simp add: run_handler_teardown)
    have len: "length (sessions ?w) = length (sessions w)" by (simp add: teardown_fields)
    have live: "\<not> disposed (sessions w ! a) \<and> a \<noteq> a0 \<and> sessions ?w ! a = sessions w ! a"
      if "a < length (sessions w)" "\<not> disposed (sessions ?w ! a)" for a
      using that by (cases "a = a0") (auto simp: teardown_fields disposed_dispose split: if_splits)
    show ?thesis unfolding w' dispatch_inv_def len
    proof (intro conjI allI impI, goal_cases)
      case (1 a)
      with live [of a] show ?case
        using assms unfolding dispatch_inv_def by (simp add: teardown_fields)
    next
      case (2 a)
      with live [of a] have l: "\<not> disposed (sessions w ! a)" "a \<noteq> a0"
        "sessions ?w ! a = sessions w ! a" by simp_all
      from assms 2 l have "if editor_ref (sessions w ! a) = ident editor
          then Teardown a \<in> set (h # hs)
          else editors w (editor_ref (sessions w ! a)) = Some a"
        unfolding dispatch_inv_def using True by auto
      then show ?case using l Teardown True
        by (auto simp: teardown_fields split: if_splits)
    next
      case (3 i a)
      then show ?case using assms unfolding dispatch_inv_def
        by (auto simp: teardown_fields split: if_splits)
    next
      case (4 i a)
      then have mem: "DestroySubscription i a \<in> set (adapter_disposables w)"
        by (auto simp: teardown_fields split: if_splits)
      then have a: "a < length (sessions w)" using assms unfolding dispatch_inv_def by blast
      with 4 live [of a] have l: "\<not> disposed (sessions w ! a)" "a \<noteq> a0" by simp_all
      with mem a assms have "Sync a \<in> set (adapter_disposables w)"
        unfolding dispatch_inv_def by blast
      then show ?case using l by (simp add: teardown_fields)
    qed
  qed
qed

lemma run_handlers_Cons:
  "fst (run_handlers ext editor ev w (h # hs)) =
     fst (run_handlers ext editor ev (fst (run_handler ext editor ev w h)) hs)"
  "snd (run_handlers ext editor ev w (h # hs)) =
     snd (run_handler ext editor ev w h) @
     snd (run_handlers ext editor ev (fst (run_handler ext editor ev w h)) hs)"
  by (simp_all add: split_beta Let_def)

lemma run_handlers_inv:
  "dispatch_inv (ident editor) ev hs w \<Longrightarrow>
   dispatch_inv (ident editor) ev [] (fst (run_handlers ext editor ev w hs))"
proof (induction hs arbitrary: w)
  case Nil
  then show ?case by simp
next
  case (Cons h hs)
  show ?case unfolding run_handlers_Cons
    by (rule Cons.IH) (rule dispatch_inv_step [OF Cons.prems])
qed

lemma editorEvent_inv: "adapter_inv w \<Longrightarrow> adapter_inv (fst (editorEvent ext editor ev w))"
  unfolding editorEvent_def
  by (rule dispatch_inv_end, rule run_handlers_inv, rule dispatch_inv_start)


lemma fold_dispose_member_fields:
  "editors (fold dispose_member ms w) = editors w"
  "adapter_disposables (fold dispose_member ms w) = adapter_disposables w"
  "adapter_disposed (fold dispose_member ms w) = adapter_disposed w"
  "length (sessions (fold dispose_member ms w)) = length (sessions w)"
proof (induction ms arbitrary: w)
  case Nil
  { case 1 show ?case by simp }
  { case 2 show ?case by simp }
  { case 3 show ?case by simp }
  { case 4 show ?case by simp }
next
  case (Cons m ms)
  { case 1 show ?case by (cases m) (simp_all add: Cons.IH dispose_session_def) }
  { case 2 show ?case by (cases m) (simp_all add: Cons.IH dispose_session_def) }
  { case 3 show ?case by (cases m) (simp_all add: Cons.IH dispose_session_def) }
  { case 4 show ?case by (cases m) (simp_all add: Cons.IH dispose_session_def) }
qed

lemma fold_dispose_member_sessions:
  "a < length (sessions w) \<Longrightarrow>
   disposed (sessions (fold dispose_member ms w) ! a) =
     (disposed (sessions w ! a) \<or> Sync a \<in> set ms) \<and>
   editor_ref (sessions (fold dispose_member ms w) ! a) = editor_ref (sessions w ! a)"
proof (induction ms arbitrary: w)
  case Nil
  then show ?case by simp
next
  case (Cons m ms)
  show ?case
  proof (cases m)
    case ObserveSubscription
    then show ?thesis using Cons by simp
  next
    case (Sync b)
    then show ?thesis using Cons.prems Cons.IH [of "dispose_session w b"]
      by (auto simp: dispose_session_def nth_list_update disposed_dispose)
  next
    case (DestroySubscription i b)
    then show ?thesis
      using Cons.prems Cons.IH [of "w\<lparr>handlers := removeAll (i, Teardown b) (handlers w)\<rparr>"]
      by simp
  qed
qed

lemma fold_dispose_member_handlers:
  "set (handlers (fold dispose_member ms w)) =
     {(i, h). (i, h) \<in> set (handlers w) \<and>
              (\<forall>a. h = Teardown a \<longrightarrow> DestroySubscription i a \<notin> set ms)}"
proof (induction ms arbitrary: w)
  case Nil
  then show ?case by auto
next
  case (Cons m ms)
  show ?case
  proof (cases m)
    case ObserveSubscription
    then show ?thesis using Cons.IH [of w] by auto
  next
    case (Sync b)
    have "handlers (dispose_session w b) = handlers w" by (simp add: dispose_session_def)
    then show ?thesis using Sync Cons.IH [of "dispose_session w b"] by auto
  next
    case (DestroySubscription i b)
    then show ?thesis
      using Cons.IH [of "w\<lparr>handlers := removeAll (i, Teardown b) (handlers w)\<rparr>"]
      by auto
  qed
qed

lemma adapter_dispose_inv:
  assumes inv: "adapter_inv w"
  shows "adapter_inv (adapter_dispose w)"
proof (cases "adapter_disposed w")
  case True
  then show ?thesis using inv by (simp add: adapter_dispose_def)
next
  case False
  let ?ms = "adapter_disposables w"
  let ?w = "fold dispose_member ?ms (w\<lparr>adapter_disposed := True\<rparr>)"
  have eq: "adapter_dispose w = ?w\<lparr>adapter_disposables := []\<rparr>"
    using False by (simp add: adapter_dispose_def)
  have len: "length (sessions ?w) = length (sessions w)"
    by (simp add: fold_dispose_member_fields)
  have ed: "editors ?w = editors w" by (simp add: fold_dispose_member_fields)
  have sess: "disposed (sessions ?w ! a) = (disposed (sessions w ! a) \<or> Sync a \<in> set ?ms)"
    "editor_ref (sessions ?w ! a) = editor_ref (sessions w ! a)"
    if "a < length (sessions w)" for a
    using fold_dispose_member_sessions [of a "w\<lparr>adapter_disposed := True\<rparr>" ?ms] that by simp_all
  have hs: "(i, Teardown a) \<in> set (handlers ?w) \<longleftrightarrow>
      (i, Teardown a) \<in> set (handlers w) \<and> DestroySubscription i a \<notin> set ?ms" for i a
    by (simp add: fold_dispose_member_handlers)
  show ?thesis unfolding eq adapter_inv_def
  proof (intro conjI allI impI, goal_cases)
    case (1 a)
    then show ?case using inv unfolding adapter_inv_def by (simp add: len ed sess)
  next
    case (2 a)
    then have a: "a < length (sessions w)" and l: "\<not> disposed (sessions w ! a)"
      and n: "Sync a \<notin> set ?ms"
      by (simp_all add: len sess)
    from inv a l have "(editor_ref (sessions w ! a), Teardown a) \<in> set (handlers w)"
      unfolding adapter_inv_def by blast
    moreover from inv a l n have "DestroySubscription (editor_ref (sessions w ! a)) a \<notin> set ?ms"
      unfolding adapter_inv_def by blast
    ultimately show ?case using a by (simp add: hs sess)
  next
    case (3 i a)
    then show ?case by simp
  next
    case (4 i a)
    then show ?case by simp
  qed
qed

lemma adapter_step_inv: "adapter_inv w \<Longrightarrow> adapter_inv (fst (adapter_step ext w act))"
  by (cases act) (simp_all add: observe_inv editorEvent_inv adapter_dispose_inv)

lemma adapter_run_Cons:
  "fst (adapter_run ext w (act # rest)) = fst (adapter_run ext (fst (adapter_step ext w act)) rest)"
  by (simp add: split_beta Let_def)

lemma adapter_run_inv: "adapter_inv w \<Longrightarrow> adapter_inv (fst (adapter_run ext w acts))"
proof (induction acts arbitrary: w)
  case Nil
  then show ?case by simp
next
  case (Cons act acts)
  show ?case unfolding adapter_run_Cons
    by (rule Cons.IH) (rule adapter_step_inv [OF Cons.prems])
qed

lemma observeAll_inv: "adapter_inv w \<Longrightarrow> adapter_inv (fst (observeAll ext w es))"
proof (induction es arbitrary: w)
  case Nil
  then show ?case by simp
next
  case (Cons e es)
  have "fst (observeAll ext w (e # es)) = fst (observeAll ext (fst (observeTextEditor ext w e)) es)"
    by (simp add: split_beta Let_def)
  then show ?case using Cons.IH [OF observe_inv [OF Cons.prems]] by simp
qed

lemma new_adapter_inv: "adapter_inv (fst (new_DocumentSyncAdapter ext kind selector es))"
proof -
  let ?w0 = "\<lparr>editorSelector = selector, documentSyncKind = kind, editors = Map.empty,
                adapter_disposables = [], adapter_disposed = False, sessions = [],
                handlers = []\<rparr>"
  have "adapter_inv ?w0" by (simp add: adapter_inv_def)
  then have "adapter_inv (fst (observeAll ext ?w0 es))" by (rule observeAll_inv)
  then have "adapter_inv (add_disposable (fst (observeAll ext ?w0 es)) ObserveSubscription)"
    by (simp add: adapter_inv_def add_disposable_def)
  then show ?thesis by (simp add: new_DocumentSyncAdapter_def split_beta Let_def)
qed

lemma live_sessions_registered:
  assumes "adapter_inv w" and "a \<in> set (live_sessions w i)"
  shows "editors w i = Some a"
  using assms unfolding adapter_inv_def live_sessions_def by auto

lemma live_sessions_at_most_one:
  assumes "adapter_inv w"
  shows "length (live_sessions w i) \<le> 1"
proof -
  have d: "distinct (live_sessions w i)" by (simp add: live_sessions_def)
  have "a = b" if "a \<in> set (live_sessions w i)" "b \<in> set (live_sessions w i)" for a b
    using live_sessions_registered [OF assms that(1)] live_sessions_registered [OF assms that(2)]
    by simp
  then have "set (live_sessions w i) \<subseteq> {hd (live_sessions w i)}"
    by (cases "live_sessions w i") auto
  then have "card (set (live_sessions w i)) \<le> 1"
    by (metis card_mono card_1_singleton_iff finite.emptyI finite.insertI le_refl is_singletonI is_singleton_altdef)
  then show ?thesis using d by (simp add: distinct_card)
qed

lemma run_handler_editors:
  "editors (fst (run_handler ext editor ev w h)) =
     (if ev = EditorDidDestroy \<and> (\<exists>a. h = Teardown a) then (editors w)(ident editor := None)
      else editors w)"
  by (cases h) (simp_all add: run_handler_def split_beta Let_def teardown_fields)

lemma run_handlers_editors:
  "editors (fst (run_handlers ext editor ev w hs)) =
     (if ev = EditorDidDestroy \<and> (\<exists>a. Teardown a \<in> set hs) then (editors w)(ident editor := None)
      else editors w)"
proof (induction hs arbitrary: w)
  case Nil
  then show ?case by simp
next
  case (Cons h hs)
  show ?case unfolding run_handlers_Cons Cons.IH run_handler_editors
    by (cases h) auto
qed

lemma sample_adapter_eq: "sample_adapter = \<lparr>editorSelector = sample_selector, documentSyncKind = 2, editors = Map.empty,
                adapter_disposables = [ObserveSubscription], adapter_disposed = False, sessions = [],
                handlers = []\<rparr>"
  by (simp add: sample_adapter_def new_DocumentSyncAdapter_def add_disposable_def kind_defs)

section \<open>The registry\<close>

text \<open>
  C8. In every state the adapter reaches from its constructor by calls of
  \<^verbatim>\<open>observeTextEditor\<close>, events of editors and \<^verbatim>\<open>dispose\<close>, an editor has at most
  one session that is not disposed, and that session is the one the map holds for it.
  \<^verbatim>\<open>observeTextEditor\<close> on an editor that is in the map, or that the selector
  rejects, returns the adapter as it was and sends nothing. Otherwise it constructs
  exactly one session, appended to the store and entered in the map, sends what the
  session's constructor sends, and registers the teardown callback; the new session is
  then the editor's only live session, and the editor's destroy event takes the editor
  out of the map and leaves it no live session. Observing the same editor a second
  time changes nothing.
\<close>

theorem one_session_per_editor:
  assumes reach: "w = fst (adapter_run ext
                     (fst (new_DocumentSyncAdapter ext kind selector open_editors)) acts)"
  shows "length (live_sessions w i) \<le> 1 \<and>
    (\<forall>a \<in> set (live_sessions w i). editors w i = Some a) \<and>
    (editors w (ident editor) \<noteq> None \<or> \<not> editorSelector w editor \<longrightarrow>
       observeTextEditor ext w editor = (w, [])) \<and>
    (editors w (ident editor) = None \<and> editorSelector w editor \<longrightarrow>
       sessions (fst (observeTextEditor ext w editor)) =
         sessions w @ [fst (new_TextEditorSyncAdapter ext editor (documentSyncKind w))] \<and>
       editors (fst (observeTextEditor ext w editor)) =
         (editors w)(ident editor \<mapsto> length (sessions w)) \<and>
       snd (observeTextEditor ext w editor) =
         snd (new_TextEditorSyncAdapter ext editor (documentSyncKind w)) \<and>
       live_sessions (fst (observeTextEditor ext w editor)) (ident editor) = [length (sessions w)] \<and>
       (ident editor, Teardown (length (sessions w)))
         \<in> set (handlers (fst (observeTextEditor ext w editor))) \<and>
       (ident editor' = ident editor \<longrightarrow>
          editors (fst (editorEvent ext editor' EditorDidDestroy
                          (fst (observeTextEditor ext w editor)))) (ident editor) = None \<and>
          live_sessions (fst (editorEvent ext editor' EditorDidDestroy
                          (fst (observeTextEditor ext w editor)))) (ident editor) = [])) \<and>
    observeTextEditor ext (fst (observeTextEditor ext w editor)) editor =
      (fst (observeTextEditor ext w editor), [])"
proof -
  have inv: "adapter_inv w"
    unfolding reach by (rule adapter_run_inv) (rule new_adapter_inv)
  have one: "length (live_sessions w i) \<le> 1"
    by (rule live_sessions_at_most_one [OF inv])
  have reg: "\<forall>a \<in> set (live_sessions w i). editors w i = Some a"
    using live_sessions_registered [OF inv] by blast
  have rejected: "editors w (ident editor) \<noteq> None \<or> \<not> editorSelector w editor \<longrightarrow>
       observeTextEditor ext w editor = (w, [])"
    using observe_rejected by blast
  let ?w = "fst (observeTextEditor ext w editor)"
  let ?n = "length (sessions w)"
  have twice: "observeTextEditor ext ?w editor = (?w, [])"
  proof (cases "editors w (ident editor) = None \<and> editorSelector w editor")
    case True
    then have "editors ?w (ident editor) \<noteq> None" by (simp add: observe_accepted)
    then show ?thesis by (simp add: observe_rejected)
  next
    case False
    then have "observeTextEditor ext w editor = (w, [])" by (auto simp: observe_rejected)
    then show ?thesis by simp
  qed
  have accepted: "sessions ?w =
         sessions w @ [fst (new_TextEditorSyncAdapter ext editor (documentSyncKind w))] \<and>
       editors ?w = (editors w)(ident editor \<mapsto> ?n) \<and>
       snd (observeTextEditor ext w editor) =
         snd (new_TextEditorSyncAdapter ext editor (documentSyncKind w)) \<and>
       live_sessions ?w (ident editor) = [?n] \<and>
       (ident editor, Teardown ?n) \<in> set (handlers ?w) \<and>
       (ident editor' = ident editor \<longrightarrow>
          editors (fst (editorEvent ext editor' EditorDidDestroy ?w)) (ident editor) = None \<and>
          live_sessions (fst (editorEvent ext editor' EditorDidDestroy ?w)) (ident editor) = [])"
    if none: "editors w (ident editor) = None" and sel: "editorSelector w editor"
  proof -
    note acc = observe_accepted [OF none sel, of ext]
    have inv': "adapter_inv ?w" by (rule observe_inv [OF inv])
    have s: "sessions ?w =
         sessions w @ [fst (new_TextEditorSyncAdapter ext editor (documentSyncKind w))]"
      and e: "editors ?w = (editors w)(ident editor \<mapsto> ?n)"
      and out: "snd (observeTextEditor ext w editor) =
         snd (new_TextEditorSyncAdapter ext editor (documentSyncKind w))"
      and h: "(ident editor, Teardown ?n) \<in> set (handlers ?w)"
      by (simp_all add: acc)
    have "?n \<in> set (live_sessions ?w (ident editor))"
      by (simp add: live_sessions_def s new_session_fields)
    moreover have "length (live_sessions ?w (ident editor)) \<le> 1"
      by (rule live_sessions_at_most_one [OF inv'])
    ultimately have l: "live_sessions ?w (ident editor) = [?n]"
      by (cases "live_sessions ?w (ident editor)") auto
    have gone: "editors (fst (editorEvent ext editor' EditorDidDestroy ?w)) (ident editor) = None \<and>
          live_sessions (fst (editorEvent ext editor' EditorDidDestroy ?w)) (ident editor) = []"
      if same: "ident editor' = ident editor"
    proof -
      let ?w' = "fst (editorEvent ext editor' EditorDidDestroy ?w)"
      have "Teardown ?n \<in> set (registered ?w (ident editor'))"
        using h same by (force simp: registered_def)
      then have none': "editors ?w' (ident editor) = None"
        unfolding editorEvent_def run_handlers_editors using same by auto
      have "adapter_inv ?w'" by (rule editorEvent_inv [OF inv'])
      then have "a \<notin> set (live_sessions ?w' (ident editor))" for a
        using live_sessions_registered [of ?w' a "ident editor"] none' by auto
      then have "live_sessions ?w' (ident editor) = []"
        by (cases "live_sessions ?w' (ident editor)") auto
      with none' show ?thesis by simp
    qed
    show ?thesis using s e out l h gone by blast
  qed
  show ?thesis using one reg rejected accepted twice by blast
qed

theorem one_session_per_editor_witness:
  "editors sample_adapter (ident saved_editor) = None \<and>
   editorSelector sample_adapter saved_editor \<and>
   live_sessions (fst (observeTextEditor sample_externals sample_adapter saved_editor)) 1 = [0] \<and>
   snd (observeTextEditor sample_externals sample_adapter saved_editor) =
     [DidOpenTextDocument \<lparr>td_uri = ''file:///a.ts'', td_languageId = ''typescript'',
        td_version = 1, td_text = ''let a''\<rparr>] \<and>
   snd (observeTextEditor sample_externals
          (fst (observeTextEditor sample_externals sample_adapter saved_editor)) saved_editor) = [] \<and>
   editors (fst (editorEvent sample_externals saved_editor EditorDidDestroy
      (fst (observeTextEditor sample_externals sample_adapter saved_editor)))) 1 = None \<and>
   snd (adapter_run sample_externals sample_adapter
     [Observe saved_editor, Observe saved_editor,
      Emit saved_editor (BufferDidChangeText [sample_edit]),
      Emit saved_editor EditorDidSave,
      Emit saved_editor EditorDidDestroy]) =
     [DidOpenTextDocument \<lparr>td_uri = ''file:///a.ts'', td_languageId = ''typescript'',
        td_version = 1, td_text = ''let a''\<rparr>,
      DidChangeTextDocument \<lparr>vt_uri = ''file:///a.ts'', vt_version = 2\<rparr>
       [\<lparr>cc_range = Some \<lparr>ls_start = \<lparr>line = 0, character = 0\<rparr>,
                           ls_end = \<lparr>line = 0, character = 0\<rparr>\<rparr>,
         cc_rangeLength = Some 0, cc_text = ''x''\<rparr>],
      DidSaveTextDocument ''file:///a.ts'',
      DidChangeWatchedFiles [\<lparr>fe_uri = ''file:///a.ts'', fe_type = Changed\<rparr>],
      DidCloseTextDocument ''file:///a.ts'']"
proof -
  have reach: "sample_adapter =
      fst (adapter_run sample_externals
             (fst (new_DocumentSyncAdapter sample_externals TextDocumentSyncKind_Incremental
                     sample_selector [])) [])"
    by (simp add: sample_adapter_def)
  have none: "editors sample_adapter (ident saved_editor) = None"
    and sel: "editorSelector sample_adapter saved_editor"
    by (simp_all add: sample_adapter_eq sample_selector_def saved_editor_def)
  have out: "snd (adapter_run sample_externals sample_adapter
     [Observe saved_editor, Observe saved_editor,
      Emit saved_editor (BufferDidChangeText [sample_edit]),
      Emit saved_editor EditorDidSave,
      Emit saved_editor EditorDidDestroy]) =
     [DidOpenTextDocument \<lparr>td_uri = ''file:///a.ts'', td_languageId = ''typescript'',
        td_version = 1, td_text = ''let a''\<rparr>,
      DidChangeTextDocument \<lparr>vt_uri = ''file:///a.ts'', vt_version = 2\<rparr>
       [\<lparr>cc_range = Some \<lparr>ls_start = \<lparr>line = 0, character = 0\<rparr>,
                           ls_end = \<lparr>line = 0, character = 0\<rparr>\<rparr>,
         cc_rangeLength = Some 0, cc_text = ''x''\<rparr>],
      DidSaveTextDocument ''file:///a.ts'',
      DidChangeWatchedFiles [\<lparr>fe_uri = ''file:///a.ts'', fe_type = Changed\<rparr>],
      DidCloseTextDocument ''file:///a.ts'']"
    by (simp add: sample_adapter_eq sample_selector_def observeTextEditor_def
        new_TextEditorSyncAdapter_def setupChangeTracking_def kind_defs add_disposable_def
        editorEvent_def registered_def run_handler_def teardown_def remove_disposable_def
        dispose_session_def dispose_def handler_defs textEditToContentChange_def sample_defs
        Let_def)
  have opened: "snd (new_TextEditorSyncAdapter sample_externals saved_editor
                       (documentSyncKind sample_adapter)) =
     [DidOpenTextDocument \<lparr>td_uri = ''file:///a.ts'', td_languageId = ''typescript'',
        td_version = 1, td_text = ''let a''\<rparr>]"
    by (simp add: sample_adapter_eq new_TextEditorSyncAdapter_def didOpen_def sample_defs Let_def)
  from one_session_per_editor [OF reach, of 1 saved_editor saved_editor] none sel out opened
  show ?thesis
    by (simp add: sample_adapter_eq saved_editor_def)
qed

end
